theory Spec2Isabelle
  imports Complex_Main
begin

section \<open>Audio data\<close>

text \<open>
  A block of audio is a one-dimensional array of samples. The samples are 32-bit floats
  in the program; each is taken as the real number it denotes.
\<close>

type_synonym chunk = "real list"

text \<open>
  The program reduces a block to one number in two places, both inside numpy and in
  32-bit floating point: \<open>np.sqrt(np.mean(x ** 2))\<close> and \<open>np.abs(x).mean()\<close>. The
  rounded values depend on numpy's summation and are not recomputed here: the two
  reductions are parameters of the model, each giving the (finite) number that numpy
  returns on a non-empty block. A 32-bit float is above \<open>0.01\<close> as a float exactly when it is as a
  real number, so the comparisons with the threshold are the ones on the reals.
\<close>

record numpy =
  np_sqrt_mean_sq :: "chunk \<Rightarrow> real"
  np_abs_mean :: "chunk \<Rightarrow> real"

section \<open>The speech classifier adapter: \<open>SileroVAD\<close> (pipeline/vad/vad_silero.py)\<close>

text \<open>
  \<open>model\<close> is \<open>None\<close> when loading the network failed. A loaded network is a
  function of the block and the sample rate that gives a speech probability, or
  \<open>None\<close> when the call raises.
\<close>

record SileroVAD =
  threshold :: real
  sample_rate :: nat
  model :: "(chunk \<Rightarrow> nat \<Rightarrow> real option) option"

text \<open>
  \<open>energy = np.sqrt(np.mean(audio_chunk ** 2)); return energy > 0.01\<close>. The mean of
  an empty array is \<open>nan\<close> in numpy, and every comparison with \<open>nan\<close> is false.
\<close>

definition energy_vad :: "numpy \<Rightarrow> chunk \<Rightarrow> bool" where
  "energy_vad np audio_chunk =
     (if audio_chunk = [] then False else np_sqrt_mean_sq np audio_chunk > 0.01)"

text \<open>
  The rescaling inside the \<open>try\<close> block:
  \<open>if audio_chunk.abs().max() > 1.0: audio_chunk = audio_chunk / 32768.0\<close>.
  It rebinds \<open>audio_chunk\<close>, so the \<open>except\<close> branch sees the rescaled block. The
  comparison is exact on floats, and so is the division by a power of two (short of
  underflow).
\<close>

definition rescale :: "chunk \<Rightarrow> chunk" where
  "rescale audio_chunk =
     (if Max (set (map abs audio_chunk)) > 1 then map (\<lambda>x. x / 32768) audio_chunk
      else audio_chunk)"

text \<open>
  \<open>SileroVAD.is_speech\<close>. Without a model the energy heuristic decides. With a model,
  any exception inside the \<open>try\<close> block (the maximum of an empty tensor, the model call)
  is caught and the \<open>except\<close> branch computes the energy heuristic on the block as it
  is bound at that point.
\<close>

definition is_speech :: "numpy \<Rightarrow> SileroVAD \<Rightarrow> chunk \<Rightarrow> bool" where
  "is_speech np v audio_chunk =
     (case model v of
        None \<Rightarrow> energy_vad np audio_chunk
      | Some m \<Rightarrow>
          if audio_chunk = [] then energy_vad np audio_chunk
          else
            let audio_chunk' = rescale audio_chunk in
            (case m audio_chunk' (sample_rate v) of
               Some speech_prob \<Rightarrow> speech_prob > threshold v
             | None \<Rightarrow> energy_vad np audio_chunk'))"

section \<open>The segmenter: \<open>StreamingVAD\<close> (pipeline/vad/vad_silero.py)\<close>

record StreamingVAD =
  vad :: SileroVAD
  chunk_size :: nat
  is_speaking :: bool
  speech_buffer :: "chunk list"
  silence_chunks :: nat
  max_silence_chunks :: nat
  min_speech_chunks :: nat
  speech_chunks_count :: nat

text \<open>\<open>StreamingVAD.__init__\<close>, given the classifier it constructs.\<close>

definition StreamingVAD_init :: "SileroVAD \<Rightarrow> nat \<Rightarrow> StreamingVAD" where
  "StreamingVAD_init v cs =
     \<lparr>vad = v, chunk_size = cs, is_speaking = False, speech_buffer = [],
      silence_chunks = 0, max_silence_chunks = 13, min_speech_chunks = 22,
      speech_chunks_count = 0\<rparr>"

text \<open>
  \<open>StreamingVAD.process_chunk\<close>: the returned pair \<open>(state, complete_audio)\<close> and the
  updated object. \<open>complete_audio\<close> is the concatenation of the buffered blocks.
\<close>

definition process_chunk ::
  "numpy \<Rightarrow> StreamingVAD \<Rightarrow> chunk \<Rightarrow> (string \<times> chunk option) \<times> StreamingVAD" where
  "process_chunk np s audio_chunk =
     (if is_speech np (vad s) audio_chunk then
        let s1 = (if \<not> is_speaking s
                  then s\<lparr>is_speaking := True, speech_chunks_count := 0\<rparr> else s);
            s2 = s1\<lparr>speech_buffer := speech_buffer s1 @ [audio_chunk],
                    speech_chunks_count := speech_chunks_count s1 + 1,
                    silence_chunks := 0\<rparr>
        in ((''speaking'', None), s2)
      else if is_speaking s then
        let s1 = s\<lparr>silence_chunks := silence_chunks s + 1,
                   speech_buffer := speech_buffer s @ [audio_chunk]\<rparr>
        in if silence_chunks s1 \<ge> max_silence_chunks s1 then
             if speech_chunks_count s1 < min_speech_chunks s1 then
               ((''silence'', None),
                s1\<lparr>is_speaking := False, speech_buffer := [], silence_chunks := 0,
                   speech_chunks_count := 0\<rparr>)
             else
               let complete_audio = concat (speech_buffer s1)
               in ((''ended'', Some complete_audio),
                   s1\<lparr>is_speaking := False, speech_buffer := [], silence_chunks := 0,
                      speech_chunks_count := 0\<rparr>)
           else ((''speaking'', None), s1)
      else ((''silence'', None), s))"

text \<open>
  The capture callback calls \<open>process_chunk\<close> once per block, in arrival order.
  \<open>feed\<close> is the object after a sequence of blocks, \<open>outputs\<close> the values returned
  along the way.
\<close>

fun feed :: "numpy \<Rightarrow> StreamingVAD \<Rightarrow> chunk list \<Rightarrow> StreamingVAD" where
  "feed np s [] = s"
| "feed np s (c # cs) = feed np (snd (process_chunk np s c)) cs"

fun outputs :: "numpy \<Rightarrow> StreamingVAD \<Rightarrow> chunk list \<Rightarrow> (string \<times> chunk option) list" where
  "outputs np s [] = []"
| "outputs np s (c # cs) =
     fst (process_chunk np s c) # outputs np (snd (process_chunk np s c)) cs"

section \<open>The stream engine: \<open>StreamingASR\<close> (pipeline/asr/streaming_asr.py)\<close>

text \<open>
  What a method does besides updating the object is recorded, in order, as a list of
  effects: a call of the registered callback with the event name and its data, a call of
  the logger (formatted values are left out of the message), and the start of a worker
  thread running \<open>_process_audio\<close> on a finished block of audio.
\<close>

datatype level = DEBUG | INFO | WARNING | ERROR

text \<open>
  The dictionary returned by the transcriber. The text is a Python string; it is modelled
  as a list of characters with code points below 256.
\<close>

record transcription =
  res_text :: string
  res_success :: bool
  res_latency :: real

datatype payload = NoData | ChunkData chunk | ResultData transcription

datatype effect = Callback string payload | Log level string | Thread chunk

text \<open>
  \<open>str.strip()\<close>: the white space of Python among the code points below 256 is
  \<open>0x09\<close> to \<open>0x0D\<close>, \<open>0x1C\<close> to \<open>0x20\<close>, \<open>0x85\<close> and \<open>0xA0\<close>.
\<close>

definition isspace :: "char \<Rightarrow> bool" where
  "isspace c =
     (let n = (of_char c :: nat)
      in (9 \<le> n \<and> n \<le> 13) \<or> (28 \<le> n \<and> n \<le> 32) \<or> n = 133 \<or> n = 160)"

definition strip :: "string \<Rightarrow> string" where
  "strip t = rev (dropWhile isspace (rev (dropWhile isspace t)))"

text \<open>
  The flags that sounddevice passes as \<open>status\<close>. The object is truthy when a flag is
  set, and its string names the flags that are set.
\<close>

record CallbackFlags =
  input_underflow :: bool
  input_overflow :: bool
  output_underflow :: bool
  output_overflow :: bool
  priming_output :: bool

definition flags_set :: "CallbackFlags \<Rightarrow> bool" where
  "flags_set st \<longleftrightarrow>
     input_underflow st \<or> input_overflow st \<or> output_underflow st \<or>
     output_overflow st \<or> priming_output st"

text \<open>\<open>'overflow' in str(status).lower()\<close>\<close>

definition mentions_overflow :: "CallbackFlags \<Rightarrow> bool" where
  "mentions_overflow st \<longleftrightarrow> input_overflow st \<or> output_overflow st"

text \<open>
  The audio device. Opening a stream and starting it can each fail;
  \<open>active_streams\<close> counts the streams that are started and not yet stopped.
\<close>

record sounddevice =
  can_open :: bool
  can_start :: bool
  active_streams :: nat

record InputStream =
  samplerate :: nat
  channels :: nat
  blocksize :: nat

text \<open>
  The engine object. \<open>callback\<close> tells whether a callback is registered (the callback
  itself is taken not to raise); \<open>asr\<close> is the transcriber, a function of the audio and
  the sample rate that returns the result dictionary or raises (\<open>Inl\<close> with the
  message). Fields whose names the classifier records already use carry the suffix
  \<open>_asr\<close>. The methods \<open>_audio_callback\<close> and \<open>_process_audio\<close> are written
  without the leading underscore.
\<close>

record StreamingASR =
  sample_rate_asr :: nat
  chunk_size_asr :: nat
  vad_enabled :: bool
  callback :: bool
  is_running :: bool
  stream :: "InputStream option"
  audio_buffer :: "chunk list"
  buffer_duration :: real
  last_process_time :: real
  vad_asr :: "StreamingVAD option"
  asr :: "(chunk \<Rightarrow> nat \<Rightarrow> string + transcription) option"

text \<open>
  \<open>StreamingASR.__init__\<close>. \<open>has_vad\<close> is the import flag \<open>HAS_VAD\<close>, \<open>m\<close> the
  classifier network as loaded (or not) by \<open>SileroVAD\<close>, \<open>a\<close> the transcriber.
\<close>

definition StreamingASR_init ::
  "nat \<Rightarrow> bool \<Rightarrow> bool \<Rightarrow> bool \<Rightarrow> (chunk \<Rightarrow> nat \<Rightarrow> real option) option \<Rightarrow>
   (chunk \<Rightarrow> nat \<Rightarrow> string + transcription) option \<Rightarrow> StreamingASR" where
  "StreamingASR_init sr ve cb has_vad m a =
     (let cs = (if sr = 16000 then 512 else 256)
      in \<lparr>sample_rate_asr = sr, chunk_size_asr = cs, vad_enabled = ve, callback = cb,
          is_running = False, stream = None, audio_buffer = [], buffer_duration = 3,
          last_process_time = 0,
          vad_asr = (if ve \<and> has_vad
                     then Some (StreamingVAD_init
                                  \<lparr>threshold = 0.6, sample_rate = sr, model = m\<rparr> cs)
                     else None),
          asr = a\<rparr>)"

text \<open>
  \<open>audio_level = np.abs(complete_audio).mean()\<close> and the test \<open>audio_level > 0.01\<close>;
  the mean of no samples is \<open>nan\<close>.
\<close>

definition not_silence :: "numpy \<Rightarrow> chunk \<Rightarrow> bool" where
  "not_silence np complete_audio =
     (if complete_audio = [] then False else np_abs_mean np complete_audio > 0.01)"

text \<open>
  \<open>StreamingASR._audio_callback\<close>. \<open>indata\<close> is the block as rows of channel samples;
  \<open>indata[:, 0]\<close> raises when the rows have no column. Every exception raised after the
  status check is caught by the method's \<open>except\<close> clause and logged: the missing
  column, and the division by a sample rate of zero in the branch without a segmenter
  (by then the block is already in the buffer).
\<close>

definition audio_callback ::
  "numpy \<Rightarrow> StreamingASR \<Rightarrow> real list list \<Rightarrow> CallbackFlags \<Rightarrow>
   effect list \<times> StreamingASR" where
  "audio_callback np e indata status =
     (if flags_set status \<and> mentions_overflow status then
        ([Log WARNING ''Audio buffer overflow - skipping frame''], e)
      else
        let pre = (if flags_set status then [Log WARNING ''Audio status''] else [])
        in if list_ex (\<lambda>row. row = []) indata then
             (pre @ [Log ERROR ''Audio callback error''], e)
           else
             let audio_chunk = map hd indata
             in (case vad_asr e of
                   Some s \<Rightarrow>
                     (case process_chunk np s audio_chunk of
                        ((state, complete_audio), s') \<Rightarrow>
                          (pre @
                           (case complete_audio of
                              Some a \<Rightarrow> if state = ''ended'' then [Thread a] else []
                            | None \<Rightarrow> []),
                           e\<lparr>vad_asr := Some s'\<rparr>))
                 | None \<Rightarrow>
                     let e1 = e\<lparr>audio_buffer := audio_buffer e @ [audio_chunk]\<rparr>
                     in if sample_rate_asr e1 = 0 then
                          (pre @ [Log ERROR ''Audio callback error''], e1)
                        else
                          let duration =
                                real (length (audio_buffer e1) * length audio_chunk)
                                  / real (sample_rate_asr e1);
                              chunk_event =
                                (if callback e1 then [Callback ''chunk'' (ChunkData audio_chunk)]
                                 else [])
                          in if duration \<ge> buffer_duration e1 then
                               let complete_audio = concat (audio_buffer e1);
                                   e2 = e1\<lparr>audio_buffer := []\<rparr>
                               in if not_silence np complete_audio then
                                    (pre @ [Log INFO ''Audio detected, processing...'',
                                            Thread complete_audio] @ chunk_event, e2)
                                  else
                                    (pre @ [Log DEBUG ''Silence detected, skipping'']
                                       @ chunk_event, e2)
                             else (pre @ chunk_event, e1)))"

text \<open>
  \<open>StreamingASR._process_audio\<close>, the body of a worker thread: the exception that
  leaves the method (if any), the effects up to that point, and the engine object, which
  the method does not assign to. The method has no \<open>try\<close>: the division by a sample
  rate of zero and an exception of the transcriber both leave it.
\<close>

definition process_audio ::
  "StreamingASR \<Rightarrow> chunk \<Rightarrow> string option \<times> effect list \<times> StreamingASR" where
  "process_audio e audio_data =
     (let pre = (if callback e then [Callback ''processing'' NoData] else [])
      in if sample_rate_asr e = 0 then (Some ''ZeroDivisionError'', pre, e)
         else
           let pre = pre @ [Log INFO ''Processing speech'']
           in (case asr e of
                 None \<Rightarrow> (None, pre @ [Log WARNING ''No ASR engine available''], e)
               | Some transcribe_audio \<Rightarrow>
                   (case transcribe_audio audio_data (sample_rate_asr e) of
                      Inl exn \<Rightarrow> (Some exn, pre, e)
                    | Inr result \<Rightarrow>
                        if res_success result \<and> res_text result \<noteq> [] then
                          if length (strip (res_text result)) < 2 then
                            (None,
                             pre @ [Log INFO ''Ignoring very short transcription (noise)''],
                             e)
                          else
                            (None,
                             pre @
                             (if callback e then [Callback ''result'' (ResultData result)]
                              else []) @
                             [Log INFO ''Transcription''],
                             e)
                        else (None, pre @ [Log WARNING ''Transcription failed or empty''], e))))"

text \<open>
  \<open>StreamingASR.start\<close>: the exception re-raised (if any), the effects, the object and
  the device.
\<close>

definition start ::
  "StreamingASR \<Rightarrow> sounddevice \<Rightarrow> string option \<times> effect list \<times> StreamingASR \<times> sounddevice" where
  "start e d =
     (if is_running e then (None, [Log WARNING ''Already running''], e, d)
      else
        let e1 = e\<lparr>is_running := True\<rparr>;
            bs = (if sample_rate_asr e1 = 16000 then 2048 else 1024)
        in if \<not> can_open d then
             (Some ''PortAudioError'',
              [Log INFO ''Starting streaming ASR...'', Log ERROR ''Failed to start stream''],
              e1\<lparr>is_running := False\<rparr>, d)
           else
             let e2 = e1\<lparr>stream := Some \<lparr>samplerate = sample_rate_asr e1, channels = 1,
                                          blocksize = bs\<rparr>\<rparr>
             in if \<not> can_start d then
                  (Some ''PortAudioError'',
                   [Log INFO ''Starting streaming ASR...'',
                    Log ERROR ''Failed to start stream''],
                   e2\<lparr>is_running := False\<rparr>, d)
                else
                  (None,
                   [Log INFO ''Starting streaming ASR...'', Log INFO ''Streaming ASR started'']
                     @ (if callback e2 then [Callback ''started'' NoData] else []),
                   e2, d\<lparr>active_streams := active_streams d + 1\<rparr>))"

text \<open>\<open>StreamingASR.stop\<close>\<close>

definition stop ::
  "StreamingASR \<Rightarrow> sounddevice \<Rightarrow> string option \<times> effect list \<times> StreamingASR \<times> sounddevice" where
  "stop e d =
     (if \<not> is_running e then (None, [], e, d)
      else
        let e1 = e\<lparr>is_running := False\<rparr>;
            (e2, d2) = (case stream e1 of
                          Some st \<Rightarrow> (e1\<lparr>stream := None\<rparr>,
                                      d\<lparr>active_streams := active_streams d - 1\<rparr>)
                        | None \<Rightarrow> (e1, d))
        in (None,
            [Log INFO ''Stopping streaming ASR...'', Log INFO ''Streaming ASR stopped'']
              @ (if callback e2 then [Callback ''stopped'' NoData] else []),
            e2, d2))"

section \<open>Auxiliary notions for the statements\<close>

text \<open>
  The two parts of the segmenter's invariant: the shape of the object in each of its two
  states, and the meaning of the two counters in terms of the buffered blocks.
\<close>

definition seg_inv :: "StreamingVAD \<Rightarrow> bool" where
  "seg_inv s \<longleftrightarrow>
     (\<not> is_speaking s \<longrightarrow>
        speech_buffer s = [] \<and> speech_chunks_count s = 0 \<and> silence_chunks s = 0) \<and>
     (is_speaking s \<longrightarrow>
        silence_chunks s < max_silence_chunks s \<and>
        speech_chunks_count s \<le> length (speech_buffer s))"

definition counters_ok :: "numpy \<Rightarrow> StreamingVAD \<Rightarrow> bool" where
  "counters_ok np s \<longleftrightarrow>
     speech_chunks_count s = length (filter (is_speech np (vad s)) (speech_buffer s)) \<and>
     silence_chunks s =
       length (takeWhile (\<lambda>c. \<not> is_speech np (vad s) c) (rev (speech_buffer s)))"

text \<open>
  The utterances among a sequence of returned values, by the test of the capture
  callback: \<open>state == 'ended' and complete_audio is not None\<close>.
\<close>

fun utterances :: "(string \<times> chunk option) list \<Rightarrow> chunk list" where
  "utterances [] = []"
| "utterances ((state, complete_audio) # os) =
     (case complete_audio of
        Some a \<Rightarrow> if state = ''ended'' then a # utterances os else utterances os
      | None \<Rightarrow> utterances os)"

text \<open>The callback events and the worker threads among a list of effects.\<close>

fun events :: "effect list \<Rightarrow> (string \<times> payload) list" where
  "events [] = []"
| "events (Callback name data # fs) = (name, data) # events fs"
| "events (Log l msg # fs) = events fs"
| "events (Thread a # fs) = events fs"

fun threads :: "effect list \<Rightarrow> chunk list" where
  "threads [] = []"
| "threads (Callback name data # fs) = threads fs"
| "threads (Log l msg # fs) = threads fs"
| "threads (Thread a # fs) = a # threads fs"

text \<open>
  The two reductions in exact arithmetic: the root of the mean square and the mean
  absolute value of a block. \<open>exact_np\<close> is the numpy that computes them without
  rounding; the program's numpy agrees with it wherever every intermediate value is a
  32-bit float, as on the blocks of the concrete runs below.
\<close>

definition root_mean_square :: "chunk \<Rightarrow> real" where
  "root_mean_square c = sqrt (sum_list (map (\<lambda>x. x ^ 2) c) / real (length c))"

definition mean_absolute :: "chunk \<Rightarrow> real" where
  "mean_absolute c = sum_list (map abs c) / real (length c)"

definition exact_np :: numpy where
  "exact_np = \<lparr>np_sqrt_mean_sq = root_mean_square, np_abs_mean = mean_absolute\<rparr>"

text \<open>Concrete classifiers: one without a network, one whose network raises on every call.\<close>

definition energy_only :: SileroVAD where
  "energy_only = \<lparr>threshold = 0.6, sample_rate = 16000, model = None\<rparr>"

definition raising_model :: "chunk \<Rightarrow> nat \<Rightarrow> real option" where
  "raising_model audio_chunk sr = None"

definition broken_vad :: SileroVAD where
  "broken_vad = \<lparr>threshold = 0.5, sample_rate = 16000, model = Some raising_model\<rparr>"

text \<open>
  Concrete inputs: a status without flags, transcribers that fail, that raise and that
  return a given text, a device on which streams open and start, an engine without a
  segmenter at a sample rate of 2, an engine that has been started, a network that
  answers a fixed probability, and an engine whose segmenter has heard 22 speech blocks
  and 12 silence blocks.
\<close>

definition no_flags :: CallbackFlags where
  "no_flags = \<lparr>input_underflow = False, input_overflow = False, output_underflow = False,
                output_overflow = False, priming_output = False\<rparr>"

definition unsuccessful_asr :: "chunk \<Rightarrow> nat \<Rightarrow> string + transcription" where
  "unsuccessful_asr audio_data sr = Inr \<lparr>res_text = [], res_success = False, res_latency = 0\<rparr>"

definition raising_asr :: "chunk \<Rightarrow> nat \<Rightarrow> string + transcription" where
  "raising_asr audio_data sr = Inl ''RuntimeError''"

definition constant_asr :: "string \<Rightarrow> chunk \<Rightarrow> nat \<Rightarrow> string + transcription" where
  "constant_asr t audio_data sr = Inr \<lparr>res_text = t, res_success = True, res_latency = 0\<rparr>"

definition ready_device :: sounddevice where
  "ready_device = \<lparr>can_open = True, can_start = True, active_streams = 0\<rparr>"


definition running_engine :: StreamingASR where
  "running_engine =
     (StreamingASR_init 16000 True True True None None)
       \<lparr>is_running := True,
        stream := Some \<lparr>samplerate = 16000, channels = 1, blocksize = 2048\<rparr>\<rparr>"

definition steady_model :: "real \<Rightarrow> chunk \<Rightarrow> nat \<Rightarrow> real option" where
  "steady_model p audio_chunk sr = Some p"

definition closing_engine :: StreamingASR where
  "closing_engine =
     (StreamingASR_init 16000 True True True None None)
       \<lparr>vad_asr := Some (feed exact_np (StreamingVAD_init energy_only 512)
                            (replicate 22 [1] @ replicate 12 [0]))\<rparr>"

section \<open>The segmenter's invariant\<close>

lemma process_chunk_fixed:
  "vad (snd (process_chunk np s c)) = vad s \<and>
   chunk_size (snd (process_chunk np s c)) = chunk_size s \<and>
   max_silence_chunks (snd (process_chunk np s c)) = max_silence_chunks s \<and>
   min_speech_chunks (snd (process_chunk np s c)) = min_speech_chunks s"
  by (simp add: process_chunk_def Let_def)

lemma feed_fixed:
  "vad (feed np s cs) = vad s \<and> chunk_size (feed np s cs) = chunk_size s \<and>
   max_silence_chunks (feed np s cs) = max_silence_chunks s \<and>
   min_speech_chunks (feed np s cs) = min_speech_chunks s"
  by (induction cs arbitrary: s) (simp_all add: process_chunk_fixed)

lemma feed_append: "feed np s (xs @ ys) = feed np (feed np s xs) ys"
  by (induction xs arbitrary: s) simp_all

lemma outputs_snoc:
  "outputs np s (fs @ [f]) = outputs np s fs @ [fst (process_chunk np (feed np s fs) f)]"
  by (induction fs arbitrary: s) simp_all

lemma seg_inv_step:
  "seg_inv s \<Longrightarrow> 0 < max_silence_chunks s \<Longrightarrow> seg_inv (snd (process_chunk np s c))"
  by (auto simp add: seg_inv_def process_chunk_def Let_def)

lemma counters_ok_step:
  "counters_ok np s \<Longrightarrow> seg_inv s \<Longrightarrow> counters_ok np (snd (process_chunk np s c))"
  by (auto simp add: counters_ok_def seg_inv_def process_chunk_def Let_def)

lemma seg_inv_feed:
  "seg_inv s \<Longrightarrow> 0 < max_silence_chunks s \<Longrightarrow> seg_inv (feed np s cs)"
proof (induction cs arbitrary: s)
  case Nil
  then show ?case by simp
next
  case (Cons c cs)
  have "seg_inv (snd (process_chunk np s c))"
    using Cons.prems by (rule seg_inv_step)
  moreover have "0 < max_silence_chunks (snd (process_chunk np s c))"
    using Cons.prems(2) by (simp add: process_chunk_fixed)
  ultimately show ?case using Cons.IH by simp
qed

lemma counters_ok_feed:
  "counters_ok np s \<Longrightarrow> seg_inv s \<Longrightarrow> 0 < max_silence_chunks s \<Longrightarrow> counters_ok np (feed np s cs)"
proof (induction cs arbitrary: s)
  case Nil
  then show ?case by simp
next
  case (Cons c cs)
  have "counters_ok np (snd (process_chunk np s c))"
    using Cons.prems(1,2) by (rule counters_ok_step)
  moreover have "seg_inv (snd (process_chunk np s c))"
    using Cons.prems(2,3) by (rule seg_inv_step)
  moreover have "0 < max_silence_chunks (snd (process_chunk np s c))"
    using Cons.prems(3) by (simp add: process_chunk_fixed)
  ultimately show ?case using Cons.IH by simp
qed

lemma init_inv:
  "seg_inv (StreamingVAD_init v cs) \<and> counters_ok np (StreamingVAD_init v cs) \<and>
   0 < max_silence_chunks (StreamingVAD_init v cs)"
  by (simp add: seg_inv_def counters_ok_def StreamingVAD_init_def)

lemma reachable_inv:
  "seg_inv (feed np (StreamingVAD_init v cs) fs) \<and> counters_ok np (feed np (StreamingVAD_init v cs) fs)"
  using init_inv [of v cs] by (simp add: seg_inv_feed counters_ok_feed)

lemma reachable_fixed:
  "vad (feed np (StreamingVAD_init v cs) fs) = v \<and>
   max_silence_chunks (feed np (StreamingVAD_init v cs) fs) = 13 \<and>
   min_speech_chunks (feed np (StreamingVAD_init v cs) fs) = 22"
  by (simp add: feed_fixed StreamingVAD_init_def)

section \<open>What an emitted utterance is\<close>

lemma process_chunk_ended:
  assumes "fst (process_chunk np s f) = (''ended'', Some a)"
  shows "is_speaking s \<and> \<not> is_speech np (vad s) f \<and> a = concat (speech_buffer s @ [f]) \<and>
         max_silence_chunks s \<le> silence_chunks s + 1 \<and>
         min_speech_chunks s \<le> speech_chunks_count s"
  using assms by (auto simp add: process_chunk_def Let_def split: if_splits)

lemma trailing_run:
  assumes "length (takeWhile P (rev xs)) = n"
  shows "n \<le> length xs \<and> (\<forall>c \<in> set (drop (length xs - n) xs). P c)"
proof -
  have le: "n \<le> length xs"
    using assms length_takeWhile_le [of P "rev xs"] by simp
  have "rev (drop (length xs - n) xs) = take n (rev xs)"
    using le by (simp add: rev_drop)
  also have "\<dots> = takeWhile P (rev xs)"
    using assms takeWhile_eq_take [of P "rev xs"] by simp
  finally have "set (drop (length xs - n) xs) = set (takeWhile P (rev xs))"
    by (metis set_rev)
  then show ?thesis using le by (auto dest: set_takeWhileD)
qed

lemma emit_facts:
  assumes inv: "seg_inv s" and cnt: "counters_ok np s"
    and ended: "fst (process_chunk np s f) = (''ended'', Some a)"
  shows "a = concat (speech_buffer s @ [f]) \<and>
         speech_chunks_count s = length (filter (is_speech np (vad s)) (speech_buffer s @ [f])) \<and>
         min_speech_chunks s \<le> speech_chunks_count s \<and>
         silence_chunks s + 1 = max_silence_chunks s \<and>
         max_silence_chunks s \<le> length (speech_buffer s @ [f]) \<and>
         (\<forall>c \<in> set (drop (length (speech_buffer s @ [f]) - max_silence_chunks s)
                         (speech_buffer s @ [f])).
            \<not> is_speech np (vad s) c)"
proof -
  from process_chunk_ended [OF ended]
  have sp: "is_speaking s" and sil: "\<not> is_speech np (vad s) f"
    and a: "a = concat (speech_buffer s @ [f])"
    and ge: "max_silence_chunks s \<le> silence_chunks s + 1"
    and enough: "min_speech_chunks s \<le> speech_chunks_count s"
    by simp_all
  from inv sp have "silence_chunks s < max_silence_chunks s"
    by (simp add: seg_inv_def)
  with ge have run: "silence_chunks s + 1 = max_silence_chunks s" by simp
  from cnt sil have count: "speech_chunks_count s =
      length (filter (is_speech np (vad s)) (speech_buffer s @ [f]))"
    by (simp add: counters_ok_def)
  from cnt sil run have "length (takeWhile (\<lambda>c. \<not> is_speech np (vad s) c)
      (rev (speech_buffer s @ [f]))) = max_silence_chunks s"
    by (simp add: counters_ok_def)
  from trailing_run [OF this] a count enough run show ?thesis by simp
qed

lemma speaking_outputs_buffer:
  assumes "outputs np s fs = replicate (length fs) (''speaking'', None)"
  shows "speech_buffer (feed np s fs) = speech_buffer s @ fs \<and>
         (fs \<noteq> [] \<longrightarrow> is_speaking (feed np s fs))"
  using assms
proof (induction fs arbitrary: s)
  case Nil
  then show ?case by simp
next
  case (Cons c fs)
  from Cons.prems have first: "fst (process_chunk np s c) = (''speaking'', None)"
    and rest: "outputs np (snd (process_chunk np s c)) fs = replicate (length fs) (''speaking'', None)"
    by simp_all
  from first have step: "speech_buffer (snd (process_chunk np s c)) = speech_buffer s @ [c] \<and>
      is_speaking (snd (process_chunk np s c))"
    by (auto simp add: process_chunk_def Let_def split: if_splits)
  from Cons.IH [OF rest] step show ?case
    by (cases fs) auto
qed

text \<open>
  A speaking segmenter was idle at some earlier point, and every call since then has
  returned \<open>'speaking'\<close>, the first of them on a speech block.
\<close>

lemma stays_speaking:
  assumes "is_speaking (snd (process_chunk np s c))"
  shows "fst (process_chunk np s c) = (''speaking'', None) \<and> (\<not> is_speaking s \<longrightarrow> is_speech np (vad s) c)"
  using assms by (auto simp add: process_chunk_def Let_def split: if_splits)

lemma speaking_since_onset:
  assumes "is_speaking (feed np (StreamingVAD_init v cs) history)"
  shows "\<exists>before fs. history = before @ fs \<and> fs \<noteq> [] \<and>
           \<not> is_speaking (feed np (StreamingVAD_init v cs) before) \<and>
           is_speech np v (hd fs) \<and>
           outputs np (feed np (StreamingVAD_init v cs) before) fs =
             replicate (length fs) (''speaking'', None)"
  using assms
proof (induction history rule: rev_induct)
  case Nil
  then show ?case by (simp add: StreamingVAD_init_def)
next
  case (snoc c history)
  let ?s = "feed np (StreamingVAD_init v cs) history"
  from snoc.prems have now: "is_speaking (snd (process_chunk np ?s c))"
    by (simp add: feed_append)
  note step = stays_speaking [OF now]
  show ?case
  proof (cases "is_speaking ?s")
    case True
    from snoc.IH [OF True] obtain before fs where
      split: "history = before @ fs" and ne: "fs \<noteq> []"
      and idle: "\<not> is_speaking (feed np (StreamingVAD_init v cs) before)"
      and onset: "is_speech np v (hd fs)"
      and run: "outputs np (feed np (StreamingVAD_init v cs) before) fs =
          replicate (length fs) (''speaking'', None)"
      by blast
    have "feed np (feed np (StreamingVAD_init v cs) before) fs = ?s"
      by (simp add: split feed_append)
    with run step have "outputs np (feed np (StreamingVAD_init v cs) before) (fs @ [c]) =
        replicate (length (fs @ [c])) (''speaking'', None)"
      by (simp add: outputs_snoc replicate_append_same)
    moreover have "history @ [c] = before @ (fs @ [c])" by (simp add: split)
    moreover have "is_speech np v (hd (fs @ [c]))" using ne onset by simp
    ultimately show ?thesis using idle by blast
  next
    case False
    with step have "is_speech np v c" by (simp add: reachable_fixed)
    moreover from step have "outputs np ?s [c] = replicate (length [c]) (''speaking'', None)"
      by simp
    ultimately show ?thesis using False
      by (intro exI [of _ history] exI [of _ "[c]"]) simp
  qed
qed

text \<open>The capture callback starts a worker only for the audio of an \<open>'ended'\<close> result.\<close>

lemma dispatch_only_ended:
  assumes "vad_asr e = Some s"
    and "Thread a \<in> set (fst (audio_callback np e indata status))"
  shows "fst (process_chunk np s (map hd indata)) = (''ended'', Some a)"
  using assms
  by (auto simp add: audio_callback_def Let_def split: if_splits prod.splits option.splits)

section \<open>The energy heuristic on concrete blocks\<close>

lemma sqrt_gt_hundredth: "sqrt y > 1 / 100 \<longleftrightarrow> y > 1 / 10000"
proof -
  have "sqrt (1 / 10000) = 1 / 100"
    by (rule real_sqrt_unique) (simp_all add: power2_eq_square)
  then show ?thesis
    by (metis real_sqrt_less_iff)
qed

lemma energy_vad_mean_square:
  "energy_vad exact_np c \<longleftrightarrow>
     c \<noteq> [] \<and> sum_list (map (\<lambda>x. x ^ 2) c) / real (length c) > 1 / 10000"
  using sqrt_gt_hundredth [of "sum_list (map (\<lambda>x. x ^ 2) c) / real (length c)"]
  by (simp add: energy_vad_def exact_np_def root_mean_square_def)

lemma energy_only_one: "is_speech exact_np energy_only [1]"
  by (simp add: is_speech_def energy_only_def energy_vad_mean_square)

lemma energy_only_zero: "\<not> is_speech exact_np energy_only [0]"
  by (simp add: is_speech_def energy_only_def energy_vad_mean_square)

section \<open>Runs of speech blocks and of silence blocks\<close>

lemma speech_step:
  assumes "is_speech np (vad s) c"
  shows "process_chunk np s c =
           ((''speaking'', None),
            s\<lparr>is_speaking := True,
              speech_chunks_count := (if is_speaking s then speech_chunks_count s else 0) + 1,
              speech_buffer := speech_buffer s @ [c],
              silence_chunks := 0\<rparr>)"
  using assms by (simp add: process_chunk_def Let_def)

lemma silence_step:
  assumes "is_speaking s" and "\<not> is_speech np (vad s) c"
    and "silence_chunks s + 1 < max_silence_chunks s"
  shows "process_chunk np s c =
           ((''speaking'', None),
            s\<lparr>silence_chunks := silence_chunks s + 1,
              speech_buffer := speech_buffer s @ [c]\<rparr>)"
  using assms by (simp add: process_chunk_def Let_def)

lemma speech_run:
  assumes "\<forall>c \<in> set xs. is_speech np (vad s) c" and "xs \<noteq> []"
  shows "feed np s xs =
           s\<lparr>is_speaking := True,
             speech_chunks_count :=
               (if is_speaking s then speech_chunks_count s else 0) + length xs,
             speech_buffer := speech_buffer s @ xs,
             silence_chunks := 0\<rparr> \<and>
         outputs np s xs = replicate (length xs) (''speaking'', None)"
  using assms
proof (induction xs arbitrary: s)
  case Nil
  then show ?case by simp
next
  case (Cons c xs)
  from Cons.prems have first: "is_speech np (vad s) c" by simp
  note step = speech_step [OF first]
  show ?case
  proof (cases "xs = []")
    case True
    with step show ?thesis by simp
  next
    case False
    let ?s1 = "snd (process_chunk np s c)"
    have "\<forall>c \<in> set xs. is_speech np (vad ?s1) c"
      using Cons.prems by (simp add: process_chunk_fixed)
    from Cons.IH [OF this False] step show ?thesis by simp
  qed
qed

lemma silence_run:
  assumes "is_speaking s" and "\<forall>c \<in> set xs. \<not> is_speech np (vad s) c"
    and "silence_chunks s + length xs < max_silence_chunks s"
  shows "feed np s xs =
           s\<lparr>silence_chunks := silence_chunks s + length xs,
             speech_buffer := speech_buffer s @ xs\<rparr> \<and>
         outputs np s xs = replicate (length xs) (''speaking'', None)"
  using assms
proof (induction xs arbitrary: s)
  case Nil
  then show ?case by simp
next
  case (Cons c xs)
  from Cons.prems have "\<not> is_speech np (vad s) c"
    and "silence_chunks s + 1 < max_silence_chunks s"
    by simp_all
  note step = silence_step [OF Cons.prems(1) this]
  let ?s1 = "snd (process_chunk np s c)"
  have "is_speaking ?s1" and "\<forall>c \<in> set xs. \<not> is_speech np (vad ?s1) c"
    and "silence_chunks ?s1 + length xs < max_silence_chunks ?s1"
    using Cons.prems step by simp_all
  from Cons.IH [OF this] step show ?case by simp
qed

lemma outputs_append:
  "outputs np s (xs @ ys) = outputs np s xs @ outputs np (feed np s xs) ys"
  by (induction xs arbitrary: s) simp_all

lemma utterances_append: "utterances (xs @ ys) = utterances xs @ utterances ys"
  by (induction xs rule: utterances.induct) (simp_all split: option.splits)

lemma utterances_speaking: "utterances (replicate n (''speaking'', None)) = []"
  by (induction n) simp_all

section \<open>The segmenter\<close>



text \<open>
  C6. A call of \<open>process_chunk\<close> that emits an utterance (\<open>'ended'\<close>), or that drops
  the buffer of a speaking segmenter as a noise burst (\<open>'silence'\<close> returned while
  speaking), leaves the object idle, with an empty buffer and both counters zero.
\<close>

theorem reset_after_emit_or_discard:
  assumes "process_chunk np s f = ((st, audio), s')"
    and "st = ''ended'' \<or> (is_speaking s \<and> st = ''silence'')"
  shows "\<not> is_speaking s' \<and> speech_buffer s' = [] \<and>
         speech_chunks_count s' = 0 \<and> silence_chunks s' = 0"
  using assms by (auto simp add: process_chunk_def Let_def split: if_splits)

theorem reset_after_emit_or_discard_witness:
  "process_chunk exact_np (feed exact_np (StreamingVAD_init energy_only 512) (replicate 22 [1] @ replicate 12 [0])) [0]
     = ((''ended'', Some (replicate 22 1 @ replicate 13 0)), StreamingVAD_init energy_only 512) \<and>
   is_speaking (feed exact_np (StreamingVAD_init energy_only 512) (replicate 3 [1] @ replicate 12 [0])) \<and>
   process_chunk exact_np (feed exact_np (StreamingVAD_init energy_only 512) (replicate 3 [1] @ replicate 12 [0])) [0]
     = ((''silence'', None), StreamingVAD_init energy_only 512) \<and>
   \<not> is_speaking (StreamingVAD_init energy_only 512) \<and>
   speech_buffer (StreamingVAD_init energy_only 512) = [] \<and>
   speech_chunks_count (StreamingVAD_init energy_only 512) = 0 \<and>
   silence_chunks (StreamingVAD_init energy_only 512) = 0"
proof -
  have emit: "process_chunk exact_np
      (feed exact_np (StreamingVAD_init energy_only 512) (replicate 22 [1] @ replicate 12 [0])) [0]
     = ((''ended'', Some (replicate 22 1 @ replicate 13 0)), StreamingVAD_init energy_only 512)"
    using energy_only_one energy_only_zero
    by (simp add: eval_nat_numeral process_chunk_def StreamingVAD_init_def Let_def)
  have speaking: "is_speaking
      (feed exact_np (StreamingVAD_init energy_only 512) (replicate 3 [1] @ replicate 12 [0]))"
    using energy_only_one energy_only_zero
    by (simp add: eval_nat_numeral process_chunk_def StreamingVAD_init_def Let_def)
  have discard: "process_chunk exact_np
      (feed exact_np (StreamingVAD_init energy_only 512) (replicate 3 [1] @ replicate 12 [0])) [0]
     = ((''silence'', None), StreamingVAD_init energy_only 512)"
    using energy_only_one energy_only_zero
    by (simp add: eval_nat_numeral process_chunk_def StreamingVAD_init_def Let_def)
  from reset_after_emit_or_discard [OF emit] reset_after_emit_or_discard [OF discard]
    emit speaking discard
  show ?thesis by simp
qed

text \<open>
  C1. For every sequence of blocks fed to the segmenter from its initial object: when
  \<open>process_chunk\<close> returns \<open>'ended'\<close> with audio, or when the capture callback of an
  engine that owns this segmenter starts a transcription worker on some audio, then that
  audio is the buffer with the current block appended, the counter of speech blocks is
  the number of speech-classified blocks in it and is at least \<open>min_speech_chunks = 22\<close>,
  and the silence counter has just reached \<open>max_silence_chunks = 13\<close>: the last 13
  blocks of the utterance are all classified as silence.
\<close>

theorem emit_needs_min_speech_and_full_silence_run:
  assumes "s = feed np (StreamingVAD_init v cs) fs"
    and "fst (process_chunk np s f) = (''ended'', Some a) \<or>
         (vad_asr e = Some s \<and> map hd indata = f \<and>
          Thread a \<in> set (fst (audio_callback np e indata status)))"
  shows "a = concat (speech_buffer s @ [f]) \<and>
         speech_chunks_count s = length (filter (is_speech np v) (speech_buffer s @ [f])) \<and>
         22 \<le> speech_chunks_count s \<and>
         silence_chunks s + 1 = 13 \<and>
         13 \<le> length (speech_buffer s @ [f]) \<and>
         (\<forall>c \<in> set (drop (length (speech_buffer s @ [f]) - 13) (speech_buffer s @ [f])).
            \<not> is_speech np v c)"
proof -
  from assms(2) have ended: "fst (process_chunk np s f) = (''ended'', Some a)"
    using dispatch_only_ended [of e s a np indata status] by auto
  have fixed: "vad s = v" "max_silence_chunks s = 13" "min_speech_chunks s = 22"
    unfolding assms(1) by (simp_all add: reachable_fixed)
  have "seg_inv s" and "counters_ok np s"
    unfolding assms(1) by (simp_all add: reachable_inv)
  from emit_facts [OF this ended] show ?thesis
    unfolding fixed .
qed

theorem emit_needs_min_speech_and_full_silence_run_witness:
  "fst (process_chunk exact_np
          (feed exact_np (StreamingVAD_init energy_only 512) (replicate 22 [1] @ replicate 12 [0])) [0])
     = (''ended'', Some (replicate 22 1 @ replicate 13 0)) \<and>
   vad_asr closing_engine =
     Some (feed exact_np (StreamingVAD_init energy_only 512) (replicate 22 [1] @ replicate 12 [0])) \<and>
   Thread (replicate 22 1 @ replicate 13 0)
     \<in> set (fst (audio_callback exact_np closing_engine [[0]] no_flags)) \<and>
   speech_chunks_count
     (feed exact_np (StreamingVAD_init energy_only 512) (replicate 22 [1] @ replicate 12 [0])) = 22 \<and>
   silence_chunks
     (feed exact_np (StreamingVAD_init energy_only 512) (replicate 22 [1] @ replicate 12 [0])) = 12 \<and>
   speech_buffer
     (feed exact_np (StreamingVAD_init energy_only 512) (replicate 22 [1] @ replicate 12 [0]))
     = replicate 22 [1] @ replicate 12 [0]"
proof -
  have emit: "process_chunk exact_np
      (feed exact_np (StreamingVAD_init energy_only 512) (replicate 22 [1] @ replicate 12 [0])) [0]
     = ((''ended'', Some (replicate 22 1 @ replicate 13 0)), StreamingVAD_init energy_only 512)"
    using energy_only_one energy_only_zero
    by (simp add: eval_nat_numeral process_chunk_def StreamingVAD_init_def Let_def)
  then have ended: "fst (process_chunk exact_np
      (feed exact_np (StreamingVAD_init energy_only 512) (replicate 22 [1] @ replicate 12 [0])) [0])
     = (''ended'', Some (replicate 22 1 @ replicate 13 0))"
    by simp
  have owned: "vad_asr closing_engine =
      Some (feed exact_np (StreamingVAD_init energy_only 512) (replicate 22 [1] @ replicate 12 [0]))"
    by (simp add: closing_engine_def)
  have started: "Thread (replicate 22 1 @ replicate 13 0)
      \<in> set (fst (audio_callback exact_np closing_engine [[0]] no_flags))"
    by (simp add: audio_callback_def owned emit flags_set_def no_flags_def)
  have dispatched: "vad_asr closing_engine =
      Some (feed exact_np (StreamingVAD_init energy_only 512) (replicate 22 [1] @ replicate 12 [0])) \<and>
      map hd [[0]] = [0 :: real] \<and>
      Thread (replicate 22 1 @ replicate 13 0)
        \<in> set (fst (audio_callback exact_np closing_engine [[0]] no_flags))"
    using owned started by simp
  have buffer: "speech_buffer
      (feed exact_np (StreamingVAD_init energy_only 512) (replicate 22 [1] @ replicate 12 [0]))
     = replicate 22 [1] @ replicate 12 [0]"
    using energy_only_one energy_only_zero
    by (simp add: eval_nat_numeral process_chunk_def StreamingVAD_init_def Let_def)
  have speech: "length (filter (is_speech exact_np energy_only)
      ((replicate 22 [1] @ replicate 12 [0]) @ [[0]])) = 22"
    using energy_only_one energy_only_zero by simp
  from emit_needs_min_speech_and_full_silence_run [OF refl disjI1, OF ended]
    emit_needs_min_speech_and_full_silence_run [OF refl disjI2, OF dispatched]
  show ?thesis
    unfolding buffer speech using ended owned started by simp
qed

text \<open>
  C3. Every utterance emitted after any sequence of blocks was started at an idle
  segmenter by a speech block, and it is the concatenation, in order, of all the blocks
  processed since then: the blocks for which the calls returned \<open>'speaking'\<close> and the
  block of the closing call. Its last 13 blocks are the silence run that closed it;
  nothing is trimmed.
\<close>

theorem utterance_is_all_blocks_since_onset:
  assumes "s = feed np (StreamingVAD_init v cs) history"
    and "fst (process_chunk np s f) = (''ended'', Some a)"
  shows "\<exists>before fs. history = before @ fs \<and> fs \<noteq> [] \<and>
           \<not> is_speaking (feed np (StreamingVAD_init v cs) before) \<and>
           is_speech np v (hd fs) \<and>
           outputs np (feed np (StreamingVAD_init v cs) before) fs =
             replicate (length fs) (''speaking'', None) \<and>
           a = concat (fs @ [f]) \<and> 13 \<le> length (fs @ [f]) \<and>
           (\<forall>c \<in> set (drop (length (fs @ [f]) - 13) (fs @ [f])). \<not> is_speech np v c)"
proof -
  have fixed: "vad s = v" "max_silence_chunks s = 13" "min_speech_chunks s = 22"
    unfolding assms(1) by (simp_all add: reachable_fixed)
  have inv: "seg_inv s" and cnt: "counters_ok np s"
    unfolding assms(1) by (simp_all add: reachable_inv)
  from process_chunk_ended [OF assms(2)] have "is_speaking s" by simp
  from speaking_since_onset [OF this [unfolded assms(1)]] obtain before fs where
    split: "history = before @ fs" and ne: "fs \<noteq> []"
    and idle: "\<not> is_speaking (feed np (StreamingVAD_init v cs) before)"
    and onset: "is_speech np v (hd fs)"
    and run: "outputs np (feed np (StreamingVAD_init v cs) before) fs =
        replicate (length fs) (''speaking'', None)"
    by blast
  have "seg_inv (feed np (StreamingVAD_init v cs) before)"
    by (simp add: reachable_inv)
  with idle have "speech_buffer (feed np (StreamingVAD_init v cs) before) = []"
    by (simp add: seg_inv_def)
  with speaking_outputs_buffer [OF run]
  have "speech_buffer (feed np (feed np (StreamingVAD_init v cs) before) fs) = fs" by simp
  then have buf: "speech_buffer s = fs"
    by (simp add: assms(1) split feed_append)
  from emit_facts [OF inv cnt assms(2)]
  have "a = concat (fs @ [f]) \<and> 13 \<le> length (fs @ [f]) \<and>
      (\<forall>c \<in> set (drop (length (fs @ [f]) - 13) (fs @ [f])). \<not> is_speech np v c)"
    unfolding fixed buf by blast
  with split ne idle onset run show ?thesis by blast
qed

theorem utterance_is_all_blocks_since_onset_witness:
  "fst (process_chunk exact_np
          (feed exact_np (StreamingVAD_init energy_only 512)
             ([[0]] @ replicate 22 [1] @ replicate 12 [0])) [0])
     = (''ended'', Some (replicate 22 1 @ replicate 13 0)) \<and>
   (\<exists>before fs. [[0]] @ replicate 22 [1] @ replicate 12 [0] = before @ fs \<and>
      \<not> is_speaking (feed exact_np (StreamingVAD_init energy_only 512) before) \<and>
      is_speech exact_np energy_only (hd fs) \<and>
      replicate 22 1 @ replicate 13 0 = concat (fs @ [[0]]))"
proof -
  have ended: "fst (process_chunk exact_np
      (feed exact_np (StreamingVAD_init energy_only 512)
         ([[0]] @ replicate 22 [1] @ replicate 12 [0])) [0])
     = (''ended'', Some (replicate 22 1 @ replicate 13 0))"
    using energy_only_one energy_only_zero
    by (simp add: eval_nat_numeral process_chunk_def StreamingVAD_init_def Let_def)
  from utterance_is_all_blocks_since_onset [OF refl ended]
  have "\<exists>before fs. [[0]] @ replicate 22 [1] @ replicate 12 [0] = before @ fs \<and>
      \<not> is_speaking (feed exact_np (StreamingVAD_init energy_only 512) before) \<and>
      is_speech exact_np energy_only (hd fs) \<and>
      replicate 22 1 @ replicate 13 0 = concat (fs @ [[0]])"
    by blast
  with ended show ?thesis by (intro conjI)
qed

text \<open>
  C2, as claimed. After 25 speech blocks and 14 silence blocks the one utterance would
  hold all 39 blocks. It does not: with one-sample blocks of amplitude 1 and 0 and the
  energy classifier, the utterance is the concatenation of 38 blocks.
\<close>

theorem speech25_silence14_counterexample:
  "utterances (outputs exact_np (StreamingVAD_init energy_only 512) (replicate 25 [1] @ replicate 14 [0]))
     = [concat (replicate 25 [1] @ replicate 13 [0])] \<and>
   utterances (outputs exact_np (StreamingVAD_init energy_only 512) (replicate 25 [1] @ replicate 14 [0]))
     \<noteq> [concat (replicate 25 [1] @ replicate 14 [0])] \<and>
   length (replicate 25 [1::real] @ replicate 13 [0]) \<noteq> 39"
  using energy_only_one energy_only_zero
  by (simp add: eval_nat_numeral process_chunk_def StreamingVAD_init_def Let_def)

text \<open>
  C2, amended. From the initial segmenter (22 and 13), any 25 blocks classified as speech
  followed by any 14 blocks classified as silence give exactly one utterance, and the
  segmenter is idle afterwards. The utterance is closed by the 13th silence block: it
  holds the 25 speech blocks and the first 13 silence blocks, 38 in all. The 14th
  silence block arrives at an idle segmenter and is dropped.
\<close>

theorem speech25_silence14_one_utterance_of_38:
  assumes "length sps = 25" and "\<forall>c \<in> set sps. is_speech np v c"
    and "length sis = 14" and "\<forall>c \<in> set sis. \<not> is_speech np v c"
  shows "outputs np (StreamingVAD_init v cs) (sps @ sis) =
           replicate 37 (''speaking'', None) @
           [(''ended'', Some (concat (sps @ take 13 sis))), (''silence'', None)] \<and>
         utterances (outputs np (StreamingVAD_init v cs) (sps @ sis)) =
           [concat (sps @ take 13 sis)] \<and>
         length (sps @ take 13 sis) = 38 \<and>
         feed np (StreamingVAD_init v cs) (sps @ sis) = StreamingVAD_init v cs \<and>
         \<not> is_speaking (feed np (StreamingVAD_init v cs) (sps @ sis))"
proof -
  let ?init = "StreamingVAD_init v cs"
  let ?ys = "take 12 sis"
  let ?y = "sis ! 12"
  let ?z = "sis ! 13"
  let ?s25 = "feed np ?init sps"
  let ?s37 = "feed np ?s25 ?ys"
  have sis: "sis = ?ys @ [?y, ?z]"
    using assms(3)
    by (simp add: list_eq_iff_nth_eq nth_append nth_Cons' numeral_eq_Suc less_Suc_eq)
  have first13: "take 13 sis = ?ys @ [?y]"
    using assms(3)
    by (simp add: list_eq_iff_nth_eq nth_append nth_Cons' numeral_eq_Suc less_Suc_eq)
  have silent: "\<forall>c \<in> set ?ys. \<not> is_speech np v c" "\<not> is_speech np v ?y"
    "\<not> is_speech np v ?z"
    using assms(3,4) by (auto dest: in_set_takeD)
  have ne: "sps \<noteq> []" using assms(1) by auto
  have "\<forall>c \<in> set sps. is_speech np (vad ?init) c"
    using assms(2) by (simp add: StreamingVAD_init_def)
  from speech_run [OF this ne]
  have s25: "?s25 = ?init\<lparr>is_speaking := True, speech_chunks_count := 25,
        speech_buffer := sps, silence_chunks := 0\<rparr>"
    and o25: "outputs np ?init sps = replicate 25 (''speaking'', None)"
    by (simp_all add: assms(1) StreamingVAD_init_def)
  have "is_speaking ?s25" and "\<forall>c \<in> set ?ys. \<not> is_speech np (vad ?s25) c"
    and "silence_chunks ?s25 + length ?ys < max_silence_chunks ?s25"
    unfolding s25 using silent(1) assms(3) by (simp_all add: StreamingVAD_init_def)
  from silence_run [OF this]
  have s37: "?s37 = ?init\<lparr>is_speaking := True, speech_chunks_count := 25,
        speech_buffer := sps @ ?ys, silence_chunks := 12\<rparr>"
    and o37: "outputs np ?s25 ?ys = replicate 12 (''speaking'', None)"
    unfolding s25 by (simp_all add: assms(3) StreamingVAD_init_def)
  have close: "process_chunk np ?s37 ?y =
      ((''ended'', Some (concat (sps @ take 13 sis))), ?init)"
    using silent(2) unfolding s37 first13
    by (simp add: process_chunk_def StreamingVAD_init_def Let_def)
  have drop: "process_chunk np ?init ?z = ((''silence'', None), ?init)"
    using silent(3) by (simp add: process_chunk_def StreamingVAD_init_def)
  have split: "sps @ sis = sps @ ?ys @ [?y] @ [?z]"
    using sis by simp
  have out: "outputs np ?init (sps @ sis) =
      replicate 37 (''speaking'', None) @
      [(''ended'', Some (concat (sps @ take 13 sis))), (''silence'', None)]"
    unfolding split
    by (simp only: outputs_append feed_append o25 o37 outputs.simps feed.simps close drop
        fst_conv snd_conv append_Nil2)
       (simp add: replicate_add [symmetric])
  have final: "feed np ?init (sps @ sis) = ?init"
    unfolding split
    by (simp only: feed_append feed.simps close drop snd_conv)
  have len: "length (sps @ take 13 sis) = 38"
    using assms(1,3) by simp
  have idle: "\<not> is_speaking ?init"
    by (simp add: StreamingVAD_init_def)
  have utt: "utterances (outputs np ?init (sps @ sis)) = [concat (sps @ take 13 sis)]"
    unfolding out by (simp add: utterances_append utterances_speaking)
  from out utt len final idle show ?thesis
    by (simp only: simp_thms)
qed

theorem speech25_silence14_one_utterance_of_38_witness:
  "length (replicate 24 [1] @ [[1 / 2 :: real]]) = 25 \<and>
   length ([0, 0] # replicate 13 [0 :: real]) = 14 \<and>
   is_speech exact_np energy_only [1 / 2] \<and> \<not> is_speech exact_np energy_only [0, 0] \<and>
   utterances (outputs exact_np (StreamingVAD_init energy_only 512)
       ((replicate 24 [1] @ [[1 / 2]]) @ ([0, 0] # replicate 13 [0])))
     = [concat ((replicate 24 [1] @ [[1 / 2]]) @ take 13 ([0, 0] # replicate 13 [0]))] \<and>
   feed exact_np (StreamingVAD_init energy_only 512)
       ((replicate 24 [1] @ [[1 / 2]]) @ ([0, 0] # replicate 13 [0]))
     = StreamingVAD_init energy_only 512"
proof -
  have half: "is_speech exact_np energy_only [1 / 2]"
    and pair: "\<not> is_speech exact_np energy_only [0, 0]"
    by (simp_all add: is_speech_def energy_only_def energy_vad_mean_square power2_eq_square)
  have lengths: "length (replicate 24 [1] @ [[1 / 2 :: real]]) = 25"
    "length ([0, 0] # replicate 13 [0 :: real]) = 14"
    by simp_all
  have speech: "\<forall>c \<in> set (replicate 24 [1] @ [[1 / 2]]). is_speech exact_np energy_only c"
    using energy_only_one half by simp
  have silence: "\<forall>c \<in> set ([0, 0] # replicate 13 [0]). \<not> is_speech exact_np energy_only c"
    using energy_only_zero pair by simp
  note run = speech25_silence14_one_utterance_of_38
    [OF lengths(1) speech lengths(2) silence, of 512]
  from run have one: "utterances (outputs exact_np (StreamingVAD_init energy_only 512)
       ((replicate 24 [1] @ [[1 / 2]]) @ ([0, 0] # replicate 13 [0])))
     = [concat ((replicate 24 [1] @ [[1 / 2]]) @ take 13 ([0, 0] # replicate 13 [0]))]"
    by (elim conjE)
  from run have idle: "feed exact_np (StreamingVAD_init energy_only 512)
       ((replicate 24 [1] @ [[1 / 2]]) @ ([0, 0] # replicate 13 [0]))
     = StreamingVAD_init energy_only 512"
    by (elim conjE)
  from lengths half pair one idle show ?thesis
    by (intro conjI)
qed

section \<open>The classifier adapter\<close>

lemma rescale_empty: "rescale c = [] \<longleftrightarrow> c = []"
  by (simp add: rescale_def)

lemma within_tolerance:
  "\<bar>x - y\<bar> \<le> 1 / 1000 \<longrightarrow>
     (11 / 1000 < y \<longrightarrow> 1 / 100 < x) \<and> (y \<le> 9 / 1000 \<longrightarrow> \<not> 1 / 100 < x)" for x y :: real
  by arith

lemma rms_loud: "root_mean_square [- 1 / 8, 7 / 8] = 5 / 8"
proof -
  have "sqrt (25 / 64) = 5 / 8"
    by (rule real_sqrt_unique) (simp_all add: power2_eq_square)
  then show ?thesis by (simp add: root_mean_square_def power2_eq_square)
qed

lemma rms_quiet: "root_mean_square [1 / 256, - 1 / 256] = 1 / 256"
proof -
  have "sqrt (1 / 65536) = 1 / 256"
    by (rule real_sqrt_unique) (simp_all add: power2_eq_square)
  then show ?thesis by (simp add: root_mean_square_def power2_eq_square)
qed

lemma rescale_small: "rescale [- 1 / 8, 7 / 8] = [- 1 / 8, 7 / 8]"
  "rescale [1 / 256, - 1 / 256] = [1 / 256, - 1 / 256]" "rescale [0] = [0]"
  by (simp_all add: rescale_def)

text \<open>
  C5, as claimed. A block on which the network raises would always be silence. It is
  not: with a network that raises on every call, the one-sample block of amplitude 1/2
  is classified as speech.
\<close>

theorem model_exception_counterexample:
  "raising_model (rescale [1 / 2]) (sample_rate broken_vad) = None \<and>
   is_speech exact_np broken_vad [1 / 2]"
  by (simp add: raising_model_def is_speech_def broken_vad_def rescale_def
      energy_vad_mean_square power2_eq_square)

text \<open>
  C5, amended. When the call of the network raises, \<open>is_speech\<close> does not raise: its
  \<open>except\<close> branch evaluates the energy heuristic on the (rescaled) block, so the block
  counts as speech exactly when the root-mean-square amplitude that numpy computes for
  it exceeds 0.01, and as silence otherwise; this is the answer that the adapter without
  a network gives on the rescaled block. Whenever numpy's value is within 0.001 of the
  exact root mean square, a block whose root mean square is above 0.011 is speech and
  one whose root mean square is at most 0.009 is silence. The energy heuristic thus
  decides both without a network and when the network raises; when the network
  answers, its probability is compared with the threshold. An empty block is silence.
\<close>

theorem is_speech_energy_on_exception:
  "(model v = None \<longrightarrow> (is_speech np v c \<longleftrightarrow> c \<noteq> [] \<and> np_sqrt_mean_sq np c > 0.01)) \<and>
   (model v = Some m \<and> c = [] \<longrightarrow> \<not> is_speech np v c) \<and>
   (model v = Some m \<and> c \<noteq> [] \<and> m (rescale c) (sample_rate v) = None \<longrightarrow>
      (is_speech np v c \<longleftrightarrow> np_sqrt_mean_sq np (rescale c) > 0.01) \<and>
      is_speech np v c = is_speech np (v\<lparr>model := None\<rparr>) (rescale c) \<and>
      (\<bar>np_sqrt_mean_sq np (rescale c) - root_mean_square (rescale c)\<bar> \<le> 1 / 1000 \<longrightarrow>
         (11 / 1000 < root_mean_square (rescale c) \<longrightarrow> is_speech np v c) \<and>
         (root_mean_square (rescale c) \<le> 9 / 1000 \<longrightarrow> \<not> is_speech np v c))) \<and>
   (model v = Some m \<and> c \<noteq> [] \<and> m (rescale c) (sample_rate v) = Some p \<longrightarrow>
      (is_speech np v c \<longleftrightarrow> p > threshold v))"
proof -
  from within_tolerance [of "np_sqrt_mean_sq np (rescale c)" "root_mean_square (rescale c)"]
  show ?thesis
    by (auto simp add: is_speech_def energy_vad_def rescale_empty Let_def)
qed

theorem is_speech_energy_on_exception_witness:
  "model broken_vad = Some raising_model \<and>
   raising_model (rescale [- 1 / 8, 7 / 8]) (sample_rate broken_vad) = None \<and>
   root_mean_square (rescale [- 1 / 8, 7 / 8]) = 5 / 8 \<and>
   is_speech exact_np broken_vad [- 1 / 8, 7 / 8] \<and>
   raising_model (rescale [1 / 256, - 1 / 256]) (sample_rate broken_vad) = None \<and>
   root_mean_square (rescale [1 / 256, - 1 / 256]) = 1 / 256 \<and>
   \<not> is_speech exact_np broken_vad [1 / 256, - 1 / 256] \<and>
   \<not> is_speech exact_np broken_vad [] \<and>
   model energy_only = None \<and> \<not> is_speech exact_np energy_only [0] \<and>
   steady_model (9 / 10) (rescale [0]) 16000 = Some (9 / 10) \<and>
   is_speech exact_np
     \<lparr>threshold = 0.5, sample_rate = 16000, model = Some (steady_model (9 / 10))\<rparr> [0]"
proof -
  have m: "model broken_vad = Some raising_model" and n: "model energy_only = None"
    and k: "model \<lparr>threshold = 0.5, sample_rate = 16000, model = Some (steady_model (9 / 10))\<rparr>
      = Some (steady_model (9 / 10))"
    by (simp_all add: broken_vad_def energy_only_def)
  have r: "raising_model b (sample_rate broken_vad) = None" for b
    by (simp add: raising_model_def)
  have a: "steady_model (9 / 10) (rescale [0]) 16000 = Some (9 / 10)"
    by (simp add: steady_model_def)
  have exact: "np_sqrt_mean_sq exact_np b = root_mean_square b" for b
    by (simp add: exact_np_def)
  from is_speech_energy_on_exception [of broken_vad exact_np "[- 1 / 8, 7 / 8]" raising_model 0]
    is_speech_energy_on_exception [of broken_vad exact_np "[1 / 256, - 1 / 256]" raising_model 0]
    is_speech_energy_on_exception [of broken_vad exact_np "[]" raising_model 0]
    is_speech_energy_on_exception [of energy_only exact_np "[0]" raising_model 0]
    is_speech_energy_on_exception
      [of "\<lparr>threshold = 0.5, sample_rate = 16000, model = Some (steady_model (9 / 10))\<rparr>"
          exact_np "[0]" "steady_model (9 / 10)" "9 / 10"]
    m n k r a exact rms_loud rms_quiet rescale_small energy_only_zero
  show ?thesis by simp
qed


section \<open>The transcription worker\<close>

text \<open>The capture callback never calls the transcriber.\<close>

lemma audio_callback_ignores_asr:
  "audio_callback np (e\<lparr>asr := other\<rparr>) indata status =
     (fst (audio_callback np e indata status), (snd (audio_callback np e indata status))\<lparr>asr := other\<rparr>)"
  by (simp add: audio_callback_def Let_def split: option.splits prod.splits)

text \<open>
  C4, as claimed. A transcription that fails would raise exactly one \<open>'failure'\<close>
  event. It raises none, neither for an unsuccessful result nor for an exception: the
  only event is \<open>'processing'\<close>.
\<close>

theorem unsuccessful_transcription_counterexample:
  "unsuccessful_asr [0] 16000 = Inr \<lparr>res_text = [], res_success = False, res_latency = 0\<rparr> \<and>
   events (fst (snd (process_audio
      (StreamingASR_init 16000 True True True None (Some unsuccessful_asr)) [0])))
     = [(''processing'', NoData)] \<and>
   count_list (map fst (events (fst (snd (process_audio
      (StreamingASR_init 16000 True True True None (Some unsuccessful_asr)) [0])))))
     ''failure'' \<noteq> 1 \<and>
   raising_asr [0] 16000 = Inl ''RuntimeError'' \<and>
   count_list (map fst (events (fst (snd (process_audio
      (StreamingASR_init 16000 True True True None (Some raising_asr)) [0])))))
     ''failure'' \<noteq> 1"
  by (simp add: process_audio_def StreamingASR_init_def unsuccessful_asr_def raising_asr_def
      Let_def)

text \<open>
  C4, amended. The program has no \<open>'failure'\<close> event. When the transcriber raises or
  returns an unsuccessful result, the only callback event of the worker is
  \<open>'processing'\<close>: a warning is logged for the unsuccessful result, and the exception
  leaves \<open>_process_audio\<close> uncaught, in the worker thread. The worker starts no thread
  and does not change the engine object, so \<open>is_running\<close> keeps its value; the capture
  callback does not depend on the transcriber, which it never calls.
\<close>

theorem failed_transcription_only_processing_event:
  assumes "asr e = Some t" and "sample_rate_asr e \<noteq> 0"
    and "t a (sample_rate_asr e) = Inl x \<or>
         (t a (sample_rate_asr e) = Inr r \<and> \<not> res_success r)"
  shows "events (fst (snd (process_audio e a))) =
           (if callback e then [(''processing'', NoData)] else []) \<and>
         count_list (map fst (events (fst (snd (process_audio e a))))) ''failure'' = 0 \<and>
         threads (fst (snd (process_audio e a))) = [] \<and>
         fst (process_audio e a) =
           (case t a (sample_rate_asr e) of Inl exn \<Rightarrow> Some exn | Inr result \<Rightarrow> None) \<and>
         snd (snd (process_audio e a)) = e \<and>
         is_running (snd (snd (process_audio e a))) = is_running e \<and>
         fst (audio_callback np (e\<lparr>asr := other\<rparr>) indata status) =
           fst (audio_callback np e indata status)"
  using assms audio_callback_ignores_asr [of np other e indata status]
  by (auto simp add: process_audio_def Let_def)

theorem failed_transcription_only_processing_event_witness:
  "asr (StreamingASR_init 16000 True True True None (Some unsuccessful_asr))
     = Some unsuccessful_asr \<and>
   sample_rate_asr (StreamingASR_init 16000 True True True None (Some unsuccessful_asr)) \<noteq> 0 \<and>
   unsuccessful_asr [0] 16000 = Inr \<lparr>res_text = [], res_success = False, res_latency = 0\<rparr> \<and>
   events (fst (snd (process_audio
      (StreamingASR_init 16000 True True True None (Some unsuccessful_asr)) [0])))
     = [(''processing'', NoData)] \<and>
   fst (process_audio
      (StreamingASR_init 16000 True True True None (Some unsuccessful_asr)) [0]) = None \<and>
   raising_asr [0] 16000 = Inl ''RuntimeError'' \<and>
   events (fst (snd (process_audio
      (StreamingASR_init 16000 True True True None (Some raising_asr)) [0])))
     = [(''processing'', NoData)] \<and>
   fst (process_audio
      (StreamingASR_init 16000 True True True None (Some raising_asr)) [0])
     = Some ''RuntimeError''"
proof -
  have a: "asr (StreamingASR_init 16000 True True True None (Some tr)) = Some tr"
    and sr: "sample_rate_asr (StreamingASR_init 16000 True True True None (Some tr)) \<noteq> 0"
    and cb: "callback (StreamingASR_init 16000 True True True None (Some tr))"
    and rate: "sample_rate_asr (StreamingASR_init 16000 True True True None (Some tr)) = 16000"
    for tr
    by (simp_all add: StreamingASR_init_def Let_def)
  have res: "unsuccessful_asr [0]
      (sample_rate_asr (StreamingASR_init 16000 True True True None (Some unsuccessful_asr)))
      = Inr \<lparr>res_text = [], res_success = False, res_latency = 0\<rparr> \<and>
      \<not> res_success \<lparr>res_text = [], res_success = False, res_latency = 0\<rparr>"
    by (simp add: unsuccessful_asr_def)
  have exn: "raising_asr [0]
      (sample_rate_asr (StreamingASR_init 16000 True True True None (Some raising_asr)))
      = Inl ''RuntimeError''"
    by (simp add: raising_asr_def)
  have r16: "unsuccessful_asr [0] 16000
      = Inr \<lparr>res_text = [], res_success = False, res_latency = 0\<rparr>"
    "raising_asr [0] 16000 = Inl ''RuntimeError''"
    by (simp_all add: unsuccessful_asr_def raising_asr_def)
  from failed_transcription_only_processing_event
      [OF a [of unsuccessful_asr] sr [of unsuccessful_asr] disjI2, OF res]
    failed_transcription_only_processing_event
      [OF a [of raising_asr] sr [of raising_asr] disjI1, OF exn]
    a sr cb r16
  show ?thesis by (simp add: rate)
qed

text \<open>
  C7. With a callback registered, a successful transcription raises the \<open>'result'\<close>
  event exactly when its stripped text has at least two characters: \<open>ok\<close> does,
  \<open>a\<close> (also with surrounding blanks) does not.
\<close>

theorem result_event_iff_two_characters:
  assumes "asr e = Some t" and "sample_rate_asr e \<noteq> 0" and "callback e"
    and "t a (sample_rate_asr e) = Inr r" and "res_success r"
  shows "((''result'', ResultData r) \<in> set (events (fst (snd (process_audio e a))))
            \<longleftrightarrow> 2 \<le> length (strip (res_text r))) \<and>
         events (fst (snd (process_audio e a))) =
           (''processing'', NoData) #
           (if 2 \<le> length (strip (res_text r)) then [(''result'', ResultData r)] else [])"
proof -
  have "strip [] = []" by (simp add: strip_def)
  then have short: "res_text r = [] \<Longrightarrow> \<not> 2 \<le> length (strip (res_text r))" by simp
  from assms short show ?thesis
    by (auto simp add: process_audio_def Let_def)
qed

theorem result_event_iff_two_characters_witness:
  "events (fst (snd (process_audio
      (StreamingASR_init 16000 True True True None (Some (constant_asr ''ok''))) [0])))
     = [(''processing'', NoData),
        (''result'', ResultData \<lparr>res_text = ''ok'', res_success = True, res_latency = 0\<rparr>)] \<and>
   events (fst (snd (process_audio
      (StreamingASR_init 16000 True True True None (Some (constant_asr ''a''))) [0])))
     = [(''processing'', NoData)] \<and>
   events (fst (snd (process_audio
      (StreamingASR_init 16000 True True True None (Some (constant_asr '' a ''))) [0])))
     = [(''processing'', NoData)]"
proof -
  have init: "asr (StreamingASR_init 16000 True True True None (Some (constant_asr tx)))
      = Some (constant_asr tx)"
    "sample_rate_asr (StreamingASR_init 16000 True True True None (Some (constant_asr tx))) \<noteq> 0"
    "callback (StreamingASR_init 16000 True True True None (Some (constant_asr tx)))"
    for tx
    by (simp_all add: StreamingASR_init_def Let_def)
  have res: "constant_asr tx [0]
      (sample_rate_asr (StreamingASR_init 16000 True True True None (Some (constant_asr tx))))
      = Inr \<lparr>res_text = tx, res_success = True, res_latency = 0\<rparr>" for tx
    by (simp add: constant_asr_def)
  have ok: "res_success \<lparr>res_text = tx, res_success = True, res_latency = 0\<rparr>" for tx
    by simp
  have lens: "length (strip ''ok'') = 2" "length (strip ''a'') = 1" "length (strip '' a '') = 1"
    by (simp_all add: strip_def isspace_def)
  from result_event_iff_two_characters [OF init(1) init(2) init(3) res ok, of "''ok''"]
    result_event_iff_two_characters [OF init(1) init(2) init(3) res ok, of "''a''"]
    result_event_iff_two_characters [OF init(1) init(2) init(3) res ok, of "'' a ''"]
    lens
  show ?thesis by simp
qed

section \<open>The engine without a segmenter\<close>






section \<open>The engine's life cycle\<close>

text \<open>
  C9. \<open>start\<close> on a running engine only logs a warning: it raises nothing and leaves
  the engine, its stream and the device as they are, so that after two calls of
  \<open>start\<close> exactly the one stream of the first call is active. \<open>stop\<close> on a stopped
  engine does nothing at all and raises nothing, so a second \<open>stop\<close> is a no-op.
\<close>

theorem lifecycle_idempotent:
  "(is_running e \<longrightarrow> start e d = (None, [Log WARNING ''Already running''], e, d)) \<and>
   (\<not> is_running e \<longrightarrow> stop e d = (None, [], e, d)) \<and>
   (\<not> is_running e \<and> can_open d \<and> can_start d \<longrightarrow>
      (case start e d of (x1, f1, e1, d1) \<Rightarrow>
         (case start e1 d1 of (x2, f2, e2, d2) \<Rightarrow>
            x1 = None \<and> is_running e1 \<and> active_streams d1 = active_streams d + 1 \<and>
            x2 = None \<and> f2 = [Log WARNING ''Already running''] \<and> e2 = e1 \<and> d2 = d1))) \<and>
   (case stop e d of (x1, f1, e1, d1) \<Rightarrow>
      (case stop e1 d1 of (x2, f2, e2, d2) \<Rightarrow>
         x1 = None \<and> \<not> is_running e1 \<and> x2 = None \<and> f2 = [] \<and> e2 = e1 \<and> d2 = d1))"
  by (simp add: start_def stop_def Let_def split: option.splits)

theorem lifecycle_idempotent_witness:
  "\<not> is_running (StreamingASR_init 16000 True True True None None) \<and>
   can_open ready_device \<and> can_start ready_device \<and>
   stop (StreamingASR_init 16000 True True True None None) ready_device
     = (None, [], StreamingASR_init 16000 True True True None None, ready_device) \<and>
   is_running running_engine \<and>
   start running_engine (ready_device\<lparr>active_streams := 1\<rparr>)
     = (None, [Log WARNING ''Already running''], running_engine,
        ready_device\<lparr>active_streams := 1\<rparr>) \<and>
   (case start (StreamingASR_init 16000 True True True None None) ready_device of
      (x1, f1, e1, d1) \<Rightarrow>
        (case start e1 d1 of (x2, f2, e2, d2) \<Rightarrow>
           e1 = running_engine \<and> is_running e2 \<and> active_streams d2 = 1 \<and> x2 = None \<and>
           (case stop e2 d2 of (x3, f3, e3, d3) \<Rightarrow>
              (case stop e3 d3 of (x4, f4, e4, d4) \<Rightarrow>
                 \<not> is_running e4 \<and> active_streams d4 = 0 \<and> x4 = None \<and> f4 = []))))"
proof -
  have stopped: "\<not> is_running (StreamingASR_init 16000 True True True None None)"
    and dev: "can_open ready_device" "can_start ready_device" "active_streams ready_device = 0"
    and running: "is_running running_engine"
    by (simp_all add: StreamingASR_init_def ready_device_def running_engine_def Let_def)
  from lifecycle_idempotent [of "StreamingASR_init 16000 True True True None None" ready_device]
    lifecycle_idempotent [of running_engine "ready_device\<lparr>active_streams := 1\<rparr>"]
    stopped dev running
  show ?thesis
    by (simp add: start_def stop_def running_engine_def StreamingASR_init_def Let_def
        split: prod.splits)
qed

end
